theory Spec2Isabelle
  imports Main "HOL-Library.AList"
begin

section \<open>JavaScript values and objects\<close>

text \<open>
  The values that travel between the device and the accessory are JSON scalars. A number
  is modelled as an integer (the device reports integers; JSON has no NaN), so that the
  strict comparison \<^verbatim>\<open>!==\<close> of two values is inequality of the datatype.
\<close>

datatype jsval = JUndefined | JNull | JBool bool | JNum int | JStr string

text \<open>
  An object with string keys is an association list in insertion order, every key at most
  once. None of the keys used here is an array index, so insertion order is the order in
  which \<^verbatim>\<open>Object.keys\<close> and \<^verbatim>\<open>Object.entries\<close> enumerate.
\<close>

type_synonym object = "(string \<times> jsval) list"

definition property :: "object \<Rightarrow> string \<Rightarrow> jsval" where
  \<comment> \<open>\<^verbatim>\<open>obj[key]\<close>: a missing property reads as undefined\<close>
  "property obj key = (case map_of obj key of None \<Rightarrow> JUndefined | Some v \<Rightarrow> v)"

definition Object_keys :: "object \<Rightarrow> string list" where
  "Object_keys obj = map fst obj"

definition Object_entries :: "object \<Rightarrow> (string \<times> jsval) list" where
  "Object_entries obj = obj"

text \<open>
  lodash \<^verbatim>\<open>zip(a, b)\<close>: as long as the longer array, the missing components undefined
  (\<open>None\<close>).
\<close>

fun zip_lodash :: "'a list \<Rightarrow> 'b list \<Rightarrow> ('a option \<times> 'b option) list" where
  "zip_lodash [] [] = []"
| "zip_lodash (x # xs) [] = (Some x, None) # zip_lodash xs []"
| "zip_lodash [] (y # ys) = (None, Some y) # zip_lodash [] ys"
| "zip_lodash (x # xs) (y # ys) = (Some x, Some y) # zip_lodash xs ys"

definition entry_key :: "string option \<Rightarrow> string" where
  \<comment> \<open>the property key of an entry: undefined becomes the string \<^verbatim>\<open>"undefined"\<close>\<close>
  "entry_key k = (case k of None \<Rightarrow> ''undefined'' | Some s \<Rightarrow> s)"

definition entry_value :: "jsval option \<Rightarrow> jsval" where
  "entry_value v = (case v of None \<Rightarrow> JUndefined | Some x \<Rightarrow> x)"

definition Object_fromEntries :: "(string option \<times> jsval option) list \<Rightarrow> object" where
  \<comment> \<open>each entry in turn sets its property: a new key goes last, a known key keeps its
      place and takes the new value\<close>
  "Object_fromEntries es =
     foldl (\<lambda>obj (k, v). AList.update (entry_key k) (entry_value v) obj) [] es"

section \<open>device.ts\<close>

subsection \<open>PropertyKeys\<close>

definition POWER :: string where "POWER = ''power''"
definition AIR_QUALITY_INDEX :: string where "AIR_QUALITY_INDEX = ''aqi''"
definition AVERAGE_AIR_QUALITY_INDEX :: string where "AVERAGE_AIR_QUALITY_INDEX = ''average_aqi''"
definition HUMIDITY :: string where "HUMIDITY = ''humidity''"
definition TEMPERATURE :: string where "TEMPERATURE = ''temp_dec''"
definition MODE :: string where "MODE = ''mode''"
definition FAVORITE_ROTATION_SPEED_LEVEL :: string where
  "FAVORITE_ROTATION_SPEED_LEVEL = ''favorite_level''"
definition FILTER_LIFE_REMAINING :: string where "FILTER_LIFE_REMAINING = ''filter1_life''"
definition FILTER_HOURS_USED :: string where "FILTER_HOURS_USED = ''f1_hour_used''"
definition USE_TIME :: string where "USE_TIME = ''use_time''"
definition MOTOR_SPEED :: string where "MOTOR_SPEED = ''motor1_speed''"
definition MOTOR_2_SPEED :: string where "MOTOR_2_SPEED = ''motor2_speed''"
definition PURIFY_VOLUME :: string where "PURIFY_VOLUME = ''purify_volume''"
definition LED :: string where "LED = ''led''"
definition LED_BRIGHTNESS :: string where "LED_BRIGHTNESS = ''led_b''"
definition ILLUMINANCE :: string where "ILLUMINANCE = ''bright''"
definition BUZZER :: string where "BUZZER = ''buzzer''"
definition BUZZER_VOLUME :: string where "BUZZER_VOLUME = ''volume''"
definition CHILD_LOCK :: string where "CHILD_LOCK = ''child_lock''"
definition FILTER_RFID_PRODUCT_ID :: string where "FILTER_RFID_PRODUCT_ID = ''rfid_product_id''"
definition FILTER_RFID_TAG_ID :: string where "FILTER_RFID_TAG_ID = ''rfid_tag''"
definition SLEEP_LEARNING_MODE :: string where "SLEEP_LEARNING_MODE = ''act_sleep''"
definition SLEEP_MODE :: string where "SLEEP_MODE = ''sleep_mode''"
definition SLEEP_TIME :: string where "SLEEP_TIME = ''sleep_time''"
definition SLEEP_LEARNING_MODE_COUNT :: string where
  "SLEEP_LEARNING_MODE_COUNT = ''sleep_data_num''"
definition EXTRA_MODE_SUPPORTED :: string where "EXTRA_MODE_SUPPORTED = ''app_extra''"
definition AUTO_DETECT :: string where "AUTO_DETECT = ''act_det''"
definition LAST_BUTTON_PRESSED :: string where "LAST_BUTTON_PRESSED = ''button_pressed''"

subsection \<open>DEFAULT_VALUE\<close>

definition DEFAULT_VALUE :: object where
  "DEFAULT_VALUE =
    [(POWER, JStr ''off''),
     (AIR_QUALITY_INDEX, JNum 0),
     (AVERAGE_AIR_QUALITY_INDEX, JNum 0),
     (HUMIDITY, JNum 0),
     (TEMPERATURE, JNum 0),
     (MODE, JStr ''auto''),
     (FAVORITE_ROTATION_SPEED_LEVEL, JNum 0),
     (FILTER_LIFE_REMAINING, JNum 0),
     (FILTER_HOURS_USED, JNum 0),
     (USE_TIME, JNum 0),
     (MOTOR_SPEED, JNum 0),
     (MOTOR_2_SPEED, JNum 0),
     (PURIFY_VOLUME, JNum 0),
     (LED, JStr ''off''),
     (LED_BRIGHTNESS, JNull),
     (ILLUMINANCE, JNum 0),
     (BUZZER, JStr ''off''),
     (BUZZER_VOLUME, JNull),
     (CHILD_LOCK, JStr ''off''),
     (FILTER_RFID_PRODUCT_ID, JStr ''0:0:0:0''),
     (FILTER_RFID_TAG_ID, JStr ''00:00:00:00:00:00:0''),
     (SLEEP_LEARNING_MODE, JStr ''close''),
     (SLEEP_MODE, JStr ''poweroff''),
     (SLEEP_TIME, JNum 0),
     (SLEEP_LEARNING_MODE_COUNT, JNum 0),
     (EXTRA_MODE_SUPPORTED, JNum 0),
     (AUTO_DETECT, JNull),
     (LAST_BUTTON_PRESSED, JNull)]"

subsection \<open>The transport and the trace of effects\<close>

text \<open>
  What an operation does to the outside is written to a trace: a command sent through the
  MiIO client, a wait, a call of the completion callback, a call of an update function.
  Logger and console output is left out. The client is a parameter: its answer to a
  command may depend on everything that happened before. A rejected promise is \<open>Inl\<close>.
\<close>

type_synonym err = string

datatype action =
    updateActiveState
  | updateCurrentAirPurifierState
  | updateIlluminance
  | updateTargetAirPurifierState
  | updateLockPhysicalControls
  | updateRotationSpeed
  | updateFilterState
  | updateFilterChangeState
  | updateAirQuality
  | updatePM25
  | updateTemperature
  | updateHumidity
  | updateLED
  | updateBuzzer

datatype cb_arg =
    CbNoArg    \<comment> \<open>\<^verbatim>\<open>callback()\<close>\<close>
  | CbNull     \<comment> \<open>\<^verbatim>\<open>callback(null)\<close>\<close>
  | CbErr err  \<comment> \<open>\<^verbatim>\<open>callback(err)\<close>\<close>

datatype event =
    Send string "jsval list"
  | Wait nat
  | Callback cb_arg
  | Invoke action

type_synonym trace = "event list"

type_synonym client = "trace \<Rightarrow> string \<Rightarrow> jsval list \<Rightarrow> err + jsval list"

definition send :: "client \<Rightarrow> string \<Rightarrow> jsval list \<Rightarrow> trace \<Rightarrow> (err + jsval list) \<times> trace" where
  "send cl method params t = (cl t method params, t @ [Send method params])"

fun invoked :: "trace \<Rightarrow> action list" where
  "invoked [] = []"
| "invoked (Invoke a # es) = a # invoked es"
| "invoked (e # es) = invoked es"

fun sent :: "trace \<Rightarrow> (string \<times> jsval list) list" where
  "sent [] = []"
| "sent (Send m ps # es) = (m, ps) # sent es"
| "sent (e # es) = sent es"

fun callbacks :: "trace \<Rightarrow> cb_arg list" where
  "callbacks [] = []"
| "callbacks (Callback a # es) = a # callbacks es"
| "callbacks (e # es) = callbacks es"

subsection \<open>AirPurifierDevice\<close>

definition propertyKeys :: "string list" where
  "propertyKeys = Object_keys DEFAULT_VALUE"

definition chunk1 :: "string list" where
  \<comment> \<open>\<^verbatim>\<open>propertyKeys.slice(0, 15)\<close>\<close>
  "chunk1 = take 15 propertyKeys"

definition chunk2 :: "string list" where
  \<comment> \<open>\<^verbatim>\<open>propertyKeys.slice(15)\<close>\<close>
  "chunk2 = drop 15 propertyKeys"

definition device_status :: "client \<Rightarrow> trace \<Rightarrow> (err + object) \<times> trace" where
  \<comment> \<open>\<^verbatim>\<open>AirPurifierDevice.status\<close>: the second call is sent once the first has answered;
      a rejected call rejects the whole\<close>
  "device_status cl t =
     (case send cl ''get_prop'' (map JStr chunk1) t of
        (Inl e, t1) \<Rightarrow> (Inl e, t1)
      | (Inr response1, t1) \<Rightarrow>
          (case send cl ''get_prop'' (map JStr chunk2) t1 of
             (Inl e, t2) \<Rightarrow> (Inl e, t2)
           | (Inr response2, t2) \<Rightarrow>
               (Inr (Object_fromEntries
                      (zip_lodash chunk1 response1 @ zip_lodash chunk2 response2)), t2)))"

definition setPower :: "client \<Rightarrow> string \<Rightarrow> trace \<Rightarrow> (err + jsval list) \<times> trace" where
  "setPower cl on t = send cl ''set_power'' [JStr on] t"

definition setMode :: "client \<Rightarrow> string \<Rightarrow> trace \<Rightarrow> (err + jsval list) \<times> trace" where
  "setMode cl mode t = send cl ''set_mode'' [JStr mode] t"

definition setFavoriteSpeedLevel :: "client \<Rightarrow> int \<Rightarrow> trace \<Rightarrow> (err + jsval list) \<times> trace" where
  "setFavoriteSpeedLevel cl speed t = send cl ''set_level_favorite'' [JNum speed] t"

section \<open>accessory.ts\<close>

record accessory =
  status :: object

definition valueUpdater :: "string \<Rightarrow> action list" where
  "valueUpdater key =
     (if key = POWER then [updateActiveState, updateCurrentAirPurifierState]
      else if key = MODE then [updateTargetAirPurifierState, updateRotationSpeed]
      else if key = CHILD_LOCK then [updateLockPhysicalControls]
      else if key = MOTOR_SPEED then [updateRotationSpeed]
      else if key = FILTER_LIFE_REMAINING then [updateFilterState, updateFilterState]
      else if key = AIR_QUALITY_INDEX then [updateAirQuality, updatePM25]
      else if key = TEMPERATURE then [updateTemperature]
      else if key = HUMIDITY then [updateHumidity]
      else if key = LED then [updateLockPhysicalControls]
      else if key = BUZZER then [updateLockPhysicalControls]
      else if key = ILLUMINANCE then [updateIlluminance]
      else [])"

definition itemsNeedUpdate :: "object \<Rightarrow> object \<Rightarrow> action list" where
  \<comment> \<open>the \<^verbatim>\<open>reduce\<close> of \<^verbatim>\<open>updateState\<close>: each changed key's updaters go in front of the
      ones collected so far\<close>
  "itemsNeedUpdate cur newState =
     foldl (\<lambda>updaters (key, value).
              (if property cur key \<noteq> value then valueUpdater key else []) @ updaters)
           [] (Object_entries newState)"

definition updateState :: "client \<Rightarrow> accessory \<Rightarrow> trace \<Rightarrow> err option \<times> accessory \<times> trace" where
  \<comment> \<open>the first component is the rejection of the returned promise, if any\<close>
  "updateState cl acc t =
     (case device_status cl t of
        (Inl e, t1) \<Rightarrow> (Some e, acc, t1)
      | (Inr newState, t1) \<Rightarrow>
          (None, acc\<lparr>status := newState\<rparr>,
           t1 @ map Invoke (itemsNeedUpdate (status acc) newState)))"

definition Active_ACTIVE :: jsval where
  \<comment> \<open>\<^verbatim>\<open>Characteristic.Active.ACTIVE\<close> of the HomeKit library\<close>
  "Active_ACTIVE = JNum 1"

definition setActiveState :: "client \<Rightarrow> accessory \<Rightarrow> jsval \<Rightarrow> trace \<Rightarrow> trace" where
  "setActiveState cl acc state t =
     (let targetState = (if Active_ACTIVE = state then ''on'' else ''off'')
      in if JStr targetState = property (status acc) POWER then t @ [Callback CbNoArg]
         else (case setPower cl targetState t of
                 (Inr r, t1) \<Rightarrow> t1 @ [Callback CbNull]
               | (Inl e, t1) \<Rightarrow> t1 @ [Callback (CbErr e)]))"

definition favorite_level :: "int \<Rightarrow> int" where
  \<comment> \<open>\<^verbatim>\<open>Math.ceil(speed / 6.25)\<close> for an integer speed: the least integer not below
      \<open>4 * speed / 25\<close>. This is what the doubles of the source compute as long as
      \<open>\<bar>speed\<bar> < 25 * 2 ^ 47\<close> (a rotation speed is a percentage); beyond that the
      source rounds the quotient before it takes the ceiling and may be one off.\<close>
  "favorite_level speed = - ((- (4 * speed)) div 25)"

definition setRotationSpeedImpl :: "client \<Rightarrow> accessory \<Rightarrow> int \<Rightarrow> trace \<Rightarrow> trace" where
  \<comment> \<open>the \<^verbatim>\<open>try\<close> block runs up to the first rejected command; the \<^verbatim>\<open>catch\<close> block
      gives its error to the callback\<close>
  "setRotationSpeedImpl cl acc speed t =
     (case (if property (status acc) MODE \<noteq> JStr ''favorite''
            then (case setMode cl ''favorite'' t of
                    (Inl e, t1) \<Rightarrow> (Inl e, t1)
                  | (Inr r, t1) \<Rightarrow> (Inr r, t1 @ [Wait 300]))
            else (Inr [], t)) of
        (Inl e, t1) \<Rightarrow> t1 @ [Callback (CbErr e)]
      | (Inr r, t1) \<Rightarrow>
          (let level = favorite_level speed
           in case setFavoriteSpeedLevel cl level t1 of
                (Inl e, t2) \<Rightarrow> t2 @ [Callback (CbErr e)]
              | (Inr r', t2) \<Rightarrow> t2 @ [Callback CbNull]))"

subsection \<open>setRotationSpeed\<close>

text \<open>
  Modelled from the spec: \<^verbatim>\<open>debounce\<close> belongs to the lodash library and is not among
  the sources, which only have \<^verbatim>\<open>setRotationSpeed = debounce(this.setRotationSpeedImpl, 100)\<close>.
  The model follows the description of the command coalescer: a submission schedules the
  wrapped operation, with the submitted arguments, to run once the quiet window has
  passed with no further submission; a submission within the window cancels the one
  scheduled before and schedules anew. Time is a logical clock in milliseconds. A
  submission is the time of the call, the speed and the caller whose completion callback
  came with it; submissions are listed in the order of their times.
\<close>

type_synonym submission = "nat \<times> int \<times> nat"

fun debounce :: "nat \<Rightarrow> (nat \<times> int \<times> nat) option \<Rightarrow> submission list \<Rightarrow> (int \<times> nat) list" where
  \<comment> \<open>Modelled from the spec: the invocations of the wrapped operation, in order;
      \<open>pending\<close> is the scheduled invocation with the time at which it is due\<close>
  "debounce wait pending [] =
     (case pending of None \<Rightarrow> [] | Some (due, speed', caller') \<Rightarrow> [(speed', caller')])"
| "debounce wait pending ((now, speed, caller) # rest) =
     (case pending of
        None \<Rightarrow> debounce wait (Some (now + wait, speed, caller)) rest
      | Some (due, speed', caller') \<Rightarrow>
          if due \<le> now
          then (speed', caller') # debounce wait (Some (now + wait, speed, caller)) rest
          else debounce wait (Some (now + wait, speed, caller)) rest)"

fun apply_invocations ::
  "client \<Rightarrow> accessory \<Rightarrow> (int \<times> nat) list \<Rightarrow> trace \<Rightarrow> trace \<times> (nat \<times> cb_arg) list" where
  \<comment> \<open>each invocation runs \<^verbatim>\<open>setRotationSpeedImpl\<close> with the speed and the callback of its
      caller: the callback calls it makes are completion signals to that caller\<close>
  "apply_invocations cl acc [] t = (t, [])"
| "apply_invocations cl acc ((speed, caller) # rest) t =
     (let t1 = setRotationSpeedImpl cl acc speed t;
          signals = map (Pair caller) (callbacks (drop (length t) t1));
          (t2, more) = apply_invocations cl acc rest t1
      in (t2, signals @ more))"

definition setRotationSpeed ::
  "client \<Rightarrow> accessory \<Rightarrow> submission list \<Rightarrow> trace \<Rightarrow> trace \<times> (nat \<times> cb_arg) list" where
  \<comment> \<open>\<^verbatim>\<open>debounce(this.setRotationSpeedImpl, 100)\<close>: the trace, and the completion signals
      with the caller each went to\<close>
  "setRotationSpeed cl acc submissions t =
     apply_invocations cl acc (debounce 100 None submissions) t"

section \<open>Notions used by the properties\<close>

definition changed_keys :: "object \<Rightarrow> object \<Rightarrow> string list" where
  \<comment> \<open>the keys of the fetched snapshot whose value differs from the current one, in the
      order of the fetched snapshot\<close>
  "changed_keys cur newState =
     map fst (filter (\<lambda>(key, value). property cur key \<noteq> value) (Object_entries newState))"


subsection \<open>Concrete devices and snapshots\<close>

definition client_down :: client where
  \<comment> \<open>a transport on which every command fails\<close>
  "client_down t method params = Inl ''timeout''"

definition client_short :: client where
  \<comment> \<open>a transport that answers every command with a single value\<close>
  "client_short t method params = Inr [JStr ''on'']"

definition read_property :: "object \<Rightarrow> jsval \<Rightarrow> jsval" where
  "read_property dev p = (case p of JStr key \<Rightarrow> property dev key | _ \<Rightarrow> JNull)"

definition client_holding :: "object \<Rightarrow> client" where
  \<comment> \<open>a device whose properties are \<open>dev\<close>: it answers \<^verbatim>\<open>get_prop\<close> with the values of
      the keys asked for, in their order, and accepts every other command\<close>
  "client_holding dev t method params =
     (if method = ''get_prop'' then Inr (map (read_property dev) params) else Inr [])"

definition snapshot_mode_motor :: object where
  \<comment> \<open>the default snapshot with mode and motor speed changed\<close>
  "snapshot_mode_motor =
     AList.update MODE (JStr ''favorite'') (AList.update MOTOR_SPEED (JNum 1000) DEFAULT_VALUE)"

definition snapshot_power_mode :: object where
  \<comment> \<open>the default snapshot with power and mode changed\<close>
  "snapshot_power_mode =
     AList.update POWER (JStr ''on'') (AList.update MODE (JStr ''favorite'') DEFAULT_VALUE)"

definition snapshot_led :: object where
  \<comment> \<open>the default snapshot with the LED on\<close>
  "snapshot_led = AList.update LED (JStr ''on'') DEFAULT_VALUE"

definition accessory_default :: accessory where
  \<comment> \<open>the accessory as constructed: \<^verbatim>\<open>status = DEFAULT_VALUE\<close>\<close>
  "accessory_default = \<lparr>status = DEFAULT_VALUE\<rparr>"

definition accessory_favorite :: accessory where
  "accessory_favorite = \<lparr>status = snapshot_mode_motor\<rparr>"

section \<open>Basic facts\<close>

lemmas PropertyKeys_defs =
  POWER_def AIR_QUALITY_INDEX_def AVERAGE_AIR_QUALITY_INDEX_def HUMIDITY_def TEMPERATURE_def
  MODE_def FAVORITE_ROTATION_SPEED_LEVEL_def FILTER_LIFE_REMAINING_def FILTER_HOURS_USED_def
  USE_TIME_def MOTOR_SPEED_def MOTOR_2_SPEED_def PURIFY_VOLUME_def LED_def LED_BRIGHTNESS_def
  ILLUMINANCE_def BUZZER_def BUZZER_VOLUME_def CHILD_LOCK_def FILTER_RFID_PRODUCT_ID_def
  FILTER_RFID_TAG_ID_def SLEEP_LEARNING_MODE_def SLEEP_MODE_def SLEEP_TIME_def
  SLEEP_LEARNING_MODE_COUNT_def EXTRA_MODE_SUPPORTED_def AUTO_DETECT_def
  LAST_BUTTON_PRESSED_def


subsection \<open>The dispatch list\<close>

lemma foldl_prepend:
  "foldl (\<lambda>acc (k, v). g k v @ acc) a xs = foldl (\<lambda>acc (k, v). g k v @ acc) [] xs @ a"
  by (induction xs rule: rev_induct) (simp_all add: case_prod_beta)

lemma itemsNeedUpdate_Nil: "itemsNeedUpdate cur [] = []"
  by (simp add: itemsNeedUpdate_def Object_entries_def)

lemma itemsNeedUpdate_append:
  "itemsNeedUpdate cur (xs @ ys) = itemsNeedUpdate cur ys @ itemsNeedUpdate cur xs"
proof -
  let ?F = "\<lambda>updaters (key, value).
              (if property cur key \<noteq> value then valueUpdater key else []) @ updaters"
  have "foldl ?F (foldl ?F [] xs) ys = foldl ?F [] ys @ foldl ?F [] xs"
    by (rule foldl_prepend)
  then show ?thesis
    by (simp add: itemsNeedUpdate_def Object_entries_def)
qed

lemma itemsNeedUpdate_Cons:
  "itemsNeedUpdate cur ((key, value) # xs) =
     itemsNeedUpdate cur xs @ (if property cur key \<noteq> value then valueUpdater key else [])"
  using itemsNeedUpdate_append [of cur "[(key, value)]" xs]
  by (simp add: itemsNeedUpdate_def Object_entries_def)

lemma itemsNeedUpdate_changed_keys:
  "itemsNeedUpdate cur newState = concat (map valueUpdater (rev (changed_keys cur newState)))"
  by (induction newState) (auto simp: itemsNeedUpdate_Nil itemsNeedUpdate_Cons changed_keys_def Object_entries_def)

lemma set_itemsNeedUpdate:
  "set (itemsNeedUpdate cur newState) = (\<Union>k \<in> set (changed_keys cur newState). set (valueUpdater k))"
  by (simp add: itemsNeedUpdate_changed_keys)

lemma distinct_concat_map:
  "distinct ks \<Longrightarrow> (\<forall>k \<in> set ks. distinct (f k)) \<Longrightarrow>
   (\<forall>k \<in> set ks. \<forall>k' \<in> set ks. k \<noteq> k' \<longrightarrow> set (f k) \<inter> set (f k') = {}) \<Longrightarrow>
   distinct (concat (map f ks))"
  by (induction ks) auto

lemma distinct_changed_keys:
  "distinct (map fst newState) \<Longrightarrow> distinct (changed_keys cur newState)"
  by (simp add: changed_keys_def Object_entries_def distinct_map_filter)

subsection \<open>Reassembly of the snapshot\<close>

lemma update_fresh: "k \<notin> fst ` set al \<Longrightarrow> AList.update k v al = al @ [(k, v)]"
  by (induction al) auto

lemma zip_lodash_same_length:
  "length ks = length vs \<Longrightarrow> zip_lodash ks vs = map (\<lambda>(k, v). (Some k, Some v)) (zip ks vs)"
  by (induction ks vs rule: list_induct2) auto

lemma foldl_update_distinct:
  "distinct (map fst al @ map fst kvs) \<Longrightarrow>
   foldl (\<lambda>obj (k, v). AList.update (entry_key k) (entry_value v) obj) al
         (map (\<lambda>(k, v). (Some k, Some v)) kvs) = al @ kvs"
proof (induction kvs arbitrary: al)
  case Nil
  then show ?case by simp
next
  case (Cons kv kvs)
  obtain k v where kv: "kv = (k, v)" by (cases kv)
  from Cons.prems have fresh: "k \<notin> fst ` set al" by (auto simp: kv)
  from Cons.prems have "distinct (map fst (al @ [(k, v)]) @ map fst kvs)" by (auto simp: kv)
  from Cons.IH [OF this] show ?case
    by (simp add: kv entry_key_def entry_value_def update_fresh [OF fresh])
qed

lemma fromEntries_same_length:
  assumes "length ks = length vs" and "distinct ks"
  shows "Object_fromEntries (zip_lodash ks vs) = zip ks vs"
proof -
  have "distinct (map fst ([] :: object) @ map fst (zip ks vs))"
    using assms by simp
  from foldl_update_distinct [OF this] show ?thesis
    by (simp add: Object_fromEntries_def zip_lodash_same_length [OF assms(1)])
qed

lemma propertyKeys_eq:
  "propertyKeys =
    [''power'', ''aqi'', ''average_aqi'', ''humidity'', ''temp_dec'', ''mode'',
     ''favorite_level'', ''filter1_life'', ''f1_hour_used'', ''use_time'',
     ''motor1_speed'', ''motor2_speed'', ''purify_volume'', ''led'', ''led_b'',
     ''bright'', ''buzzer'', ''volume'', ''child_lock'', ''rfid_product_id'',
     ''rfid_tag'', ''act_sleep'', ''sleep_mode'', ''sleep_time'',
     ''sleep_data_num'', ''app_extra'', ''act_det'', ''button_pressed'']"
  by (simp add: propertyKeys_def Object_keys_def DEFAULT_VALUE_def PropertyKeys_defs)

lemma length_propertyKeys: "length propertyKeys = 28"
  by (simp add: propertyKeys_eq)

lemma distinct_propertyKeys: "distinct propertyKeys"
  by (simp add: propertyKeys_eq)


lemma chunks_append: "chunk1 @ chunk2 = propertyKeys"
  by (simp add: chunk1_def chunk2_def)


lemma length_chunk2: "length chunk2 = 13"
  by (simp add: chunk2_def length_propertyKeys)

lemma fromEntries_chunks:
  assumes "length response1 = length chunk1" and "length response2 = length chunk2"
  shows "Object_fromEntries (zip_lodash chunk1 response1 @ zip_lodash chunk2 response2) =
         zip propertyKeys (response1 @ response2)"
proof -
  have "zip_lodash chunk1 response1 @ zip_lodash chunk2 response2 =
        zip_lodash (chunk1 @ chunk2) (response1 @ response2)"
    using assms by (simp add: zip_lodash_same_length)
  moreover have "length (chunk1 @ chunk2) = length (response1 @ response2)"
    using assms by simp
  ultimately show ?thesis
    using fromEntries_same_length [of "chunk1 @ chunk2" "response1 @ response2"]
    by (simp add: chunks_append distinct_propertyKeys)
qed









subsection \<open>Traces\<close>

lemma invoked_append: "invoked (xs @ ys) = invoked xs @ invoked ys"
  by (induction xs rule: invoked.induct) simp_all

lemma invoked_map_Invoke: "invoked (map Invoke as) = as"
  by (induction as) simp_all

lemma sent_append: "sent (xs @ ys) = sent xs @ sent ys"
  by (induction xs rule: sent.induct) simp_all

lemma callbacks_append: "callbacks (xs @ ys) = callbacks xs @ callbacks ys"
  by (induction xs rule: callbacks.induct) simp_all

lemma device_status_trace:
  "snd (device_status cl t) = t @ [Send ''get_prop'' (map JStr chunk1)] \<or>
   snd (device_status cl t) =
     t @ [Send ''get_prop'' (map JStr chunk1), Send ''get_prop'' (map JStr chunk2)]"
  by (simp add: device_status_def send_def split: sum.split)

lemma invoked_device_status: "invoked (snd (device_status cl t)) = invoked t"
  using device_status_trace [of cl t] by (auto simp: invoked_append)

lemma updateState_dispatch:
  assumes "fst (device_status cl t) = Inr newState"
  shows "invoked (snd (snd (updateState cl acc t))) =
         invoked t @ itemsNeedUpdate (status acc) newState"
proof -
  obtain t1 where "device_status cl t = (Inr newState, t1)"
    using assms by (cases "device_status cl t") simp
  moreover from this have "invoked t1 = invoked t"
    using invoked_device_status [of cl t] by simp
  ultimately show ?thesis
    by (simp add: updateState_def invoked_append invoked_map_Invoke)
qed

lemma setRotationSpeedImpl_one_callback:
  "\<exists>x. callbacks (drop (length t) (setRotationSpeedImpl cl acc speed t)) = [x]"
  by (simp add: setRotationSpeedImpl_def setMode_def setFavoriteSpeedLevel_def send_def Let_def
      split: sum.splits)

subsection \<open>The table and the concrete snapshots\<close>

lemma changed_mode_motor: "changed_keys DEFAULT_VALUE snapshot_mode_motor = [MODE, MOTOR_SPEED]"
  by (simp add: changed_keys_def Object_entries_def property_def snapshot_mode_motor_def
      DEFAULT_VALUE_def PropertyKeys_defs)

lemma changed_power_mode: "changed_keys DEFAULT_VALUE snapshot_power_mode = [POWER, MODE]"
  by (simp add: changed_keys_def Object_entries_def property_def snapshot_power_mode_def
      DEFAULT_VALUE_def PropertyKeys_defs)

lemma changed_led: "changed_keys DEFAULT_VALUE snapshot_led = [LED]"
  by (simp add: changed_keys_def Object_entries_def property_def snapshot_led_def
      DEFAULT_VALUE_def PropertyKeys_defs)

lemma valueUpdater_simps:
  "valueUpdater POWER = [updateActiveState, updateCurrentAirPurifierState]"
  "valueUpdater MODE = [updateTargetAirPurifierState, updateRotationSpeed]"
  "valueUpdater MOTOR_SPEED = [updateRotationSpeed]"
  "valueUpdater LED = [updateLockPhysicalControls]"
  "valueUpdater BUZZER = [updateLockPhysicalControls]"
  by (simp_all add: valueUpdater_def PropertyKeys_defs)


subsection \<open>A device that holds a snapshot\<close>

lemma property_own_entries:
  assumes "distinct (map fst s)"
  shows "map (property s) (map fst s) = map snd s"
proof -
  have "map_of s (fst x) = Some (snd x)" if "x \<in> set s" for x
    using that assms by simp
  then show ?thesis
    by (simp add: property_def)
qed

lemma read_property_JStr: "read_property s \<circ> JStr = property s"
  by (simp add: read_property_def fun_eq_iff)

lemma device_status_client_holding:
  assumes "Object_keys s = propertyKeys"
  shows "device_status (client_holding s) t =
           (Inr s, t @ [Send ''get_prop'' (map JStr chunk1), Send ''get_prop'' (map JStr chunk2)])"
proof -
  have d: "distinct (map fst s)"
    using assms distinct_propertyKeys by (simp add: Object_keys_def)
  have "map (property s) chunk1 @ map (property s) chunk2 = map (property s) propertyKeys"
    using chunks_append map_append [of "property s" chunk1 chunk2] by simp
  also have "\<dots> = map snd s"
    using assms property_own_entries [OF d] by (simp add: Object_keys_def)
  finally have "zip propertyKeys (map (property s) chunk1 @ map (property s) chunk2) = s"
    using assms zip_map_fst_snd [of s] by (simp add: Object_keys_def)
  then show ?thesis
    by (simp add: device_status_def send_def client_holding_def read_property_JStr
        fromEntries_chunks)
qed

lemma keys_concrete_snapshots:
  "Object_keys snapshot_mode_motor = propertyKeys"
  "Object_keys snapshot_power_mode = propertyKeys"
  "Object_keys snapshot_led = propertyKeys"
  by (simp_all add: snapshot_mode_motor_def snapshot_power_mode_def snapshot_led_def
      propertyKeys_def Object_keys_def DEFAULT_VALUE_def PropertyKeys_defs)

lemma cycle_client_holding:
  assumes "Object_keys s = propertyKeys"
  shows "invoked (snd (snd (updateState (client_holding s) accessory_default []))) =
         itemsNeedUpdate DEFAULT_VALUE s"
  using updateState_dispatch [of "client_holding s" "[]" s accessory_default]
  by (simp add: device_status_client_holding [OF assms] accessory_default_def)

lemma unchanged_rest:
  "itemsNeedUpdate DEFAULT_VALUE
     [(AIR_QUALITY_INDEX, JNum 0), (AVERAGE_AIR_QUALITY_INDEX, JNum 0), (HUMIDITY, JNum 0),
      (TEMPERATURE, JNum 0)] = []"
  "itemsNeedUpdate DEFAULT_VALUE (drop 6 DEFAULT_VALUE) = []"
  by (simp_all add: itemsNeedUpdate_changed_keys changed_keys_def Object_entries_def
      property_def DEFAULT_VALUE_def PropertyKeys_defs)

lemma updateLED_notin: "updateLED \<notin> set (valueUpdater k)" "updateBuzzer \<notin> set (valueUpdater k)"
  by (simp_all add: valueUpdater_def)

section \<open>The dispatch of a poll cycle\<close>

text \<open>
  By \<open>updateState_dispatch\<close>, a poll cycle whose fetch returns \<open>newState\<close> calls the
  update functions \<open>itemsNeedUpdate (status acc) newState\<close>, in that order, and nothing
  else; the properties of the dispatch are stated on that list.
\<close>

text \<open>
  C1 (as amended). The code does not remove duplicates. The list of update actions
  dispatched for a poll cycle contains each action at most once provided that no changed
  key's entry lists an action more than once and no two changed keys' entries share an
  action.
\<close>

theorem itemsNeedUpdate_distinct:
  assumes "distinct (Object_keys newState)"
    and "\<forall>k \<in> set (changed_keys cur newState). distinct (valueUpdater k)"
    and "\<forall>k \<in> set (changed_keys cur newState). \<forall>k' \<in> set (changed_keys cur newState).
           k \<noteq> k' \<longrightarrow> set (valueUpdater k) \<inter> set (valueUpdater k') = {}"
  shows "distinct (itemsNeedUpdate cur newState)"
proof -
  have "distinct (rev (changed_keys cur newState))"
    using assms(1) by (simp add: distinct_changed_keys Object_keys_def)
  then show ?thesis
    unfolding itemsNeedUpdate_changed_keys
    using assms(2,3) by (intro distinct_concat_map) auto
qed

text \<open>The hypotheses hold when power and mode changed.\<close>

theorem itemsNeedUpdate_distinct_witness:
  "distinct (Object_keys snapshot_power_mode) \<and>
   changed_keys DEFAULT_VALUE snapshot_power_mode = [POWER, MODE] \<and>
   distinct (valueUpdater POWER) \<and> distinct (valueUpdater MODE) \<and>
   set (valueUpdater POWER) \<inter> set (valueUpdater MODE) = {} \<and>
   distinct (itemsNeedUpdate DEFAULT_VALUE snapshot_power_mode)"
proof -
  have k: "distinct (Object_keys snapshot_power_mode)"
    by (simp add: keys_concrete_snapshots distinct_propertyKeys)
  have "distinct (itemsNeedUpdate DEFAULT_VALUE snapshot_power_mode)"
    by (rule itemsNeedUpdate_distinct) (simp_all add: k changed_power_mode valueUpdater_simps)
  with k show ?thesis
    by (simp add: changed_power_mode valueUpdater_simps)
qed

text \<open>
  C1 as stated fails: when the device reports a new mode and a new motor speed, the cycle
  calls \<^verbatim>\<open>updateRotationSpeed\<close> twice.
\<close>

theorem updateState_duplicate_counterexample:
  "invoked (snd (snd (updateState (client_holding snapshot_mode_motor) accessory_default []))) =
     [updateRotationSpeed, updateTargetAirPurifierState, updateRotationSpeed] \<and>
   \<not> distinct
       (invoked (snd (snd (updateState (client_holding snapshot_mode_motor) accessory_default []))))"
  by (simp add: cycle_client_holding keys_concrete_snapshots itemsNeedUpdate_changed_keys
      changed_mode_motor valueUpdater_simps)

text \<open>
  C5 (as amended). The update actions of a cycle run in the reverse of the key order of
  the fetched snapshot, without deduplication: when the entry of \<open>k1\<close> stands before the
  entry of \<open>k2\<close> and both changed, the actions of \<open>k2\<close> run before the actions of
  \<open>k1\<close>; between and around them run the actions of the keys after, between and before
  the two, each key's actions in the order of its entry.
\<close>

theorem itemsNeedUpdate_reverse_order:
  assumes "property cur k1 \<noteq> v1" and "property cur k2 \<noteq> v2"
  shows "itemsNeedUpdate cur (A @ (k1, v1) # B @ (k2, v2) # C) =
         itemsNeedUpdate cur C @ valueUpdater k2 @ itemsNeedUpdate cur B @ valueUpdater k1 @
         itemsNeedUpdate cur A"
  using assms by (simp add: itemsNeedUpdate_append itemsNeedUpdate_Cons)

text \<open>Power (first key) and mode (sixth key) changed, nothing else.\<close>

theorem itemsNeedUpdate_reverse_order_witness:
  "property DEFAULT_VALUE POWER \<noteq> JStr ''on'' \<and>
   property DEFAULT_VALUE MODE \<noteq> JStr ''favorite'' \<and>
   snapshot_power_mode =
     [] @ (POWER, JStr ''on'') #
     [(AIR_QUALITY_INDEX, JNum 0), (AVERAGE_AIR_QUALITY_INDEX, JNum 0), (HUMIDITY, JNum 0),
      (TEMPERATURE, JNum 0)] @
     (MODE, JStr ''favorite'') # drop 6 DEFAULT_VALUE \<and>
   itemsNeedUpdate DEFAULT_VALUE snapshot_power_mode = valueUpdater MODE @ valueUpdater POWER"
proof -
  have p: "property DEFAULT_VALUE POWER \<noteq> JStr ''on''"
    and m: "property DEFAULT_VALUE MODE \<noteq> JStr ''favorite''"
    by (simp_all add: property_def DEFAULT_VALUE_def PropertyKeys_defs)
  have s: "snapshot_power_mode =
     [] @ (POWER, JStr ''on'') #
     [(AIR_QUALITY_INDEX, JNum 0), (AVERAGE_AIR_QUALITY_INDEX, JNum 0), (HUMIDITY, JNum 0),
      (TEMPERATURE, JNum 0)] @
     (MODE, JStr ''favorite'') # drop 6 DEFAULT_VALUE"
    by (simp add: snapshot_power_mode_def DEFAULT_VALUE_def PropertyKeys_defs)
  have "itemsNeedUpdate DEFAULT_VALUE snapshot_power_mode = valueUpdater MODE @ valueUpdater POWER"
    unfolding s
    using itemsNeedUpdate_reverse_order [OF p m, of "[]"
        "[(AIR_QUALITY_INDEX, JNum 0), (AVERAGE_AIR_QUALITY_INDEX, JNum 0), (HUMIDITY, JNum 0),
          (TEMPERATURE, JNum 0)]" "drop 6 DEFAULT_VALUE"]
    by (simp add: unchanged_rest itemsNeedUpdate_Nil)
  with p m s show ?thesis by simp
qed

text \<open>
  C5 as stated fails: \<^verbatim>\<open>power\<close> is declared before \<^verbatim>\<open>mode\<close>, and when both changed
  the actions of \<^verbatim>\<open>mode\<close> run first.
\<close>

theorem updateState_order_counterexample:
  "propertyKeys ! 0 = POWER \<and> propertyKeys ! 5 = MODE \<and>
   valueUpdater POWER = [updateActiveState, updateCurrentAirPurifierState] \<and>
   valueUpdater MODE = [updateTargetAirPurifierState, updateRotationSpeed] \<and>
   invoked (snd (snd (updateState (client_holding snapshot_power_mode) accessory_default []))) =
     [updateTargetAirPurifierState, updateRotationSpeed,
      updateActiveState, updateCurrentAirPurifierState]"
proof -
  have "propertyKeys ! 0 = POWER" and "propertyKeys ! 5 = MODE"
    by (simp_all add: propertyKeys_def Object_keys_def DEFAULT_VALUE_def)
  then show ?thesis
    by (simp add: cycle_client_holding keys_concrete_snapshots itemsNeedUpdate_changed_keys
        changed_power_mode valueUpdater_simps)
qed

text \<open>
  C10. In a poll cycle whose fetch succeeds and in which the LED key or the buzzer key
  changed, the action of these keys is \<^verbatim>\<open>updateLockPhysicalControls\<close>: the cycle calls
  it, and it calls neither \<^verbatim>\<open>updateLED\<close> nor \<^verbatim>\<open>updateBuzzer\<close>. The update functions
  called by the cycle are those the trace has after the ones called before.
\<close>

theorem updateState_led_buzzer_dispatch_lock:
  assumes "fst (device_status cl t) = Inr newState"
    and "LED \<in> set (changed_keys (status acc) newState) \<or>
         BUZZER \<in> set (changed_keys (status acc) newState)"
  shows "valueUpdater LED = [updateLockPhysicalControls] \<and>
         valueUpdater BUZZER = [updateLockPhysicalControls] \<and>
         invoked (snd (snd (updateState cl acc t))) =
           invoked t @ itemsNeedUpdate (status acc) newState \<and>
         updateLockPhysicalControls \<in>
           set (drop (length (invoked t)) (invoked (snd (snd (updateState cl acc t))))) \<and>
         updateLED \<notin>
           set (drop (length (invoked t)) (invoked (snd (snd (updateState cl acc t))))) \<and>
         updateBuzzer \<notin>
           set (drop (length (invoked t)) (invoked (snd (snd (updateState cl acc t)))))"
proof -
  have "updateLockPhysicalControls \<in> set (itemsNeedUpdate (status acc) newState)"
    using assms(2) unfolding set_itemsNeedUpdate
    by (auto simp: valueUpdater_simps intro: bexI [of _ LED] bexI [of _ BUZZER])
  then show ?thesis
    by (simp add: updateState_dispatch [OF assms(1)] valueUpdater_simps set_itemsNeedUpdate
        updateLED_notin)
qed

text \<open>A cycle on a device whose LED was switched on.\<close>

theorem updateState_led_buzzer_dispatch_lock_witness:
  "fst (device_status (client_holding snapshot_led) []) = Inr snapshot_led \<and>
   LED \<in> set (changed_keys (status accessory_default) snapshot_led) \<and>
   invoked (snd (snd (updateState (client_holding snapshot_led) accessory_default []))) =
     [updateLockPhysicalControls] \<and>
   updateLED \<notin>
     set (invoked (snd (snd (updateState (client_holding snapshot_led) accessory_default [])))) \<and>
   updateBuzzer \<notin>
     set (invoked (snd (snd (updateState (client_holding snapshot_led) accessory_default []))))"
proof -
  have f: "fst (device_status (client_holding snapshot_led) []) = Inr snapshot_led"
    by (simp add: device_status_client_holding keys_concrete_snapshots)
  have c: "LED \<in> set (changed_keys (status accessory_default) snapshot_led)"
    by (simp add: accessory_default_def changed_led)
  have i: "itemsNeedUpdate DEFAULT_VALUE snapshot_led = [updateLockPhysicalControls]"
    by (simp add: itemsNeedUpdate_changed_keys changed_led valueUpdater_simps)
  from updateState_led_buzzer_dispatch_lock [of "client_holding snapshot_led" "[]" snapshot_led
      accessory_default] f c
  show ?thesis
    by (simp add: i accessory_default_def)
qed

section \<open>Fetching the snapshot\<close>

text \<open>
  C2 (as amended). \<^verbatim>\<open>DEFAULT_VALUE\<close> has 28 keys, not 27. When both transport calls
  succeed, a fetch issues exactly two \<^verbatim>\<open>get_prop\<close> calls, the first with the keys at
  positions 0 to 14 and the second with the keys at positions 15 to 27; when each result
  has as many values as its chunk has keys, the snapshot lists the 28 keys in their
  original order, each with the value at the same position in its chunk's result.
\<close>

theorem device_status_two_chunks:
  assumes "cl t ''get_prop'' (map JStr chunk1) = Inr response1"
    and "cl (t @ [Send ''get_prop'' (map JStr chunk1)]) ''get_prop'' (map JStr chunk2) =
           Inr response2"
  shows "length propertyKeys = 28 \<and>
         chunk1 = map (\<lambda>i. propertyKeys ! i) [0..<15] \<and>
         chunk2 = map (\<lambda>i. propertyKeys ! i) [15..<28] \<and>
         snd (device_status cl t) =
           t @ [Send ''get_prop'' (map JStr chunk1), Send ''get_prop'' (map JStr chunk2)] \<and>
         (length response1 = length chunk1 \<and> length response2 = length chunk2 \<longrightarrow>
            fst (device_status cl t) = Inr (zip propertyKeys (response1 @ response2)))"
proof -
  have c1: "chunk1 = map (\<lambda>i. propertyKeys ! i) [0..<15]"
    by code_simp
  have c2: "chunk2 = map (\<lambda>i. propertyKeys ! i) [15..<28]"
    by code_simp
  have tr: "snd (device_status cl t) =
           t @ [Send ''get_prop'' (map JStr chunk1), Send ''get_prop'' (map JStr chunk2)]"
    using assms by (simp add: device_status_def send_def)
  have "fst (device_status cl t) = Inr (zip propertyKeys (response1 @ response2))"
    if "length response1 = length chunk1" and "length response2 = length chunk2"
    using assms by (simp add: device_status_def send_def fromEntries_chunks [OF that])
  with c1 c2 tr show ?thesis
    by (simp add: length_propertyKeys)
qed

text \<open>A device that holds the default values with the LED on.\<close>

theorem device_status_two_chunks_witness:
  "client_holding snapshot_led [] ''get_prop'' (map JStr chunk1) =
     Inr (map (property snapshot_led) chunk1) \<and>
   client_holding snapshot_led [Send ''get_prop'' (map JStr chunk1)] ''get_prop''
       (map JStr chunk2) = Inr (map (property snapshot_led) chunk2) \<and>
   length (map (property snapshot_led) chunk1) = length chunk1 \<and>
   length (map (property snapshot_led) chunk2) = length chunk2 \<and>
   snd (device_status (client_holding snapshot_led) []) =
     [Send ''get_prop'' (map JStr chunk1), Send ''get_prop'' (map JStr chunk2)] \<and>
   fst (device_status (client_holding snapshot_led) []) =
     Inr (zip propertyKeys (map (property snapshot_led) chunk1 @
                            map (property snapshot_led) chunk2))"
proof -
  have r1: "client_holding snapshot_led [] ''get_prop'' (map JStr chunk1) =
     Inr (map (property snapshot_led) chunk1)"
    and r2: "client_holding snapshot_led [Send ''get_prop'' (map JStr chunk1)] ''get_prop''
       (map JStr chunk2) = Inr (map (property snapshot_led) chunk2)"
    by (simp_all add: client_holding_def read_property_JStr)
  from device_status_two_chunks [of "client_holding snapshot_led" "[]"
      "map (property snapshot_led) chunk1" "map (property snapshot_led) chunk2"] r1 r2
  show ?thesis
    by simp
qed

text \<open>
  C2 as stated fails: the key list has 28 keys, and the second call carries the 13 keys
  from position 15 on, the key at position 27 among them.
\<close>

theorem device_status_keys_counterexample:
  "length propertyKeys = 28 \<and>
   sent (snd (device_status (client_holding snapshot_led) [])) =
     [(''get_prop'', map JStr (take 15 propertyKeys)),
      (''get_prop'', map JStr (drop 15 propertyKeys))] \<and>
   length (drop 15 propertyKeys) = 13 \<and>
   drop 15 propertyKeys ! 12 = propertyKeys ! 27 \<and>
   propertyKeys ! 27 = LAST_BUTTON_PRESSED"
proof -
  have "drop 15 propertyKeys ! 12 = propertyKeys ! 27" "propertyKeys ! 27 = LAST_BUTTON_PRESSED"
    by (simp_all add: propertyKeys_eq LAST_BUTTON_PRESSED_def)
  then show ?thesis
    by (simp add: device_status_client_holding keys_concrete_snapshots length_propertyKeys
        chunk1_def chunk2_def)
qed




text \<open>
  C4. When a transport call of the fetch fails (the first, or the second after the first
  succeeded), the promise of \<^verbatim>\<open>updateState\<close> is rejected, the accessory and with it the
  current snapshot is as before the cycle, and no update function is called.
\<close>

theorem updateState_fetch_failure:
  assumes "isl (cl t ''get_prop'' (map JStr chunk1)) \<or>
           isl (cl (t @ [Send ''get_prop'' (map JStr chunk1)]) ''get_prop'' (map JStr chunk2))"
  shows "fst (updateState cl acc t) \<noteq> None \<and>
         fst (snd (updateState cl acc t)) = acc \<and>
         invoked (snd (snd (updateState cl acc t))) = invoked t"
proof -
  have "isl (fst (device_status cl t))"
    using assms by (auto simp: device_status_def send_def split: sum.splits)
  then obtain e t1 where f: "device_status cl t = (Inl e, t1)"
    by (cases "device_status cl t") (auto simp: isl_def)
  with invoked_device_status [of cl t] show ?thesis
    by (simp add: updateState_def)
qed

text \<open>A transport on which every call fails.\<close>

theorem updateState_fetch_failure_witness:
  "isl (client_down [] ''get_prop'' (map JStr chunk1)) \<and>
   fst (updateState client_down accessory_default []) = Some ''timeout'' \<and>
   fst (snd (updateState client_down accessory_default [])) = accessory_default \<and>
   invoked (snd (snd (updateState client_down accessory_default []))) = []"
proof -
  have d: "isl (client_down [] ''get_prop'' (map JStr chunk1))"
    by (simp add: client_down_def)
  from updateState_fetch_failure [of client_down "[]" accessory_default] d show ?thesis
    by (simp add: updateState_def device_status_def send_def client_down_def)
qed

section \<open>Commands\<close>

text \<open>
  C6. Three submissions to \<^verbatim>\<open>setRotationSpeed\<close> whose times span less than the quiet
  window of 100 ms make the debounce invoke \<^verbatim>\<open>setRotationSpeedImpl\<close> exactly once, with
  the speed and the callback of the third: the trace is that of this one call, and the
  only caller that receives a completion signal is the third.
\<close>

theorem setRotationSpeed_coalesces:
  assumes "t1 \<le> t2" and "t2 \<le> t3" and "t3 < t1 + 100"
  shows "debounce 100 None [(t1, v1, c1), (t2, v2, c2), (t3, v3, c3)] = [(v3, c3)] \<and>
         fst (setRotationSpeed cl acc [(t1, v1, c1), (t2, v2, c2), (t3, v3, c3)] t) =
           setRotationSpeedImpl cl acc v3 t \<and>
         map fst (snd (setRotationSpeed cl acc [(t1, v1, c1), (t2, v2, c2), (t3, v3, c3)] t)) =
           [c3]"
proof -
  have d: "debounce 100 None [(t1, v1, c1), (t2, v2, c2), (t3, v3, c3)] = [(v3, c3)]"
    using assms by simp
  obtain x where "callbacks (drop (length t) (setRotationSpeedImpl cl acc v3 t)) = [x]"
    using setRotationSpeedImpl_one_callback by blast
  with d show ?thesis
    by (simp add: setRotationSpeed_def Let_def)
qed

text \<open>Calls at 0, 30 and 60 ms with speeds 10, 20 and 50, the accessory in favorite mode.\<close>

theorem setRotationSpeed_coalesces_witness:
  "(0::nat) \<le> 30 \<and> (30::nat) \<le> 60 \<and> (60::nat) < 0 + 100 \<and>
   debounce 100 None [(0, 10, 1), (30, 20, 2), (60, 50, 3)] = [(50, 3)] \<and>
   fst (setRotationSpeed client_short accessory_favorite [(0, 10, 1), (30, 20, 2), (60, 50, 3)] []) =
     [Send ''set_level_favorite'' [JNum 8], Callback CbNull] \<and>
   snd (setRotationSpeed client_short accessory_favorite [(0, 10, 1), (30, 20, 2), (60, 50, 3)] []) =
     [(3, CbNull)]"
proof -
  have m: "property (status accessory_favorite) MODE = JStr ''favorite''"
    by (simp add: accessory_favorite_def snapshot_mode_motor_def property_def DEFAULT_VALUE_def
        PropertyKeys_defs)
  have i: "setRotationSpeedImpl client_short accessory_favorite 50 [] =
     [Send ''set_level_favorite'' [JNum 8], Callback CbNull]"
    using m
    by (simp add: setRotationSpeedImpl_def setFavoriteSpeedLevel_def send_def client_short_def
        favorite_level_def)
  from setRotationSpeed_coalesces [of 0 30 60 10 1 20 2 50 3 client_short accessory_favorite "[]"]
  show ?thesis
    by (simp add: i setRotationSpeed_def)
qed

text \<open>
  C7. When the mode of the current snapshot is already \<^verbatim>\<open>favorite\<close>,
  \<^verbatim>\<open>setRotationSpeedImpl\<close> sends the single command \<^verbatim>\<open>set_level_favorite\<close>, then calls
  the callback with its outcome; no \<^verbatim>\<open>set_mode\<close> command is sent.
\<close>

theorem setRotationSpeedImpl_in_favorite_mode:
  assumes "property (status acc) MODE = JStr ''favorite''"
  shows "setRotationSpeedImpl cl acc speed t =
         t @ [Send ''set_level_favorite'' [JNum (favorite_level speed)],
              Callback (case cl t ''set_level_favorite'' [JNum (favorite_level speed)] of
                          Inl e \<Rightarrow> CbErr e | Inr r \<Rightarrow> CbNull)] \<and>
         sent (setRotationSpeedImpl cl acc speed t) =
         sent t @ [(''set_level_favorite'', [JNum (favorite_level speed)])]"
  using assms
  by (simp add: setRotationSpeedImpl_def setFavoriteSpeedLevel_def send_def Let_def sent_append
      split: sum.splits)

text \<open>The accessory in favorite mode, speed 50 percent: level 8.\<close>

theorem setRotationSpeedImpl_in_favorite_mode_witness:
  "property (status accessory_favorite) MODE = JStr ''favorite'' \<and>
   setRotationSpeedImpl client_short accessory_favorite 50 [] =
     [Send ''set_level_favorite'' [JNum 8], Callback CbNull] \<and>
   sent (setRotationSpeedImpl client_short accessory_favorite 50 []) =
     [(''set_level_favorite'', [JNum 8])]"
proof -
  have m: "property (status accessory_favorite) MODE = JStr ''favorite''"
    by (simp add: accessory_favorite_def snapshot_mode_motor_def property_def DEFAULT_VALUE_def
        PropertyKeys_defs)
  from setRotationSpeedImpl_in_favorite_mode [of accessory_favorite client_short 50 "[]"] m
  show ?thesis
    by (simp add: client_short_def favorite_level_def)
qed

text \<open>
  C8. When the mode is not \<^verbatim>\<open>favorite\<close> and the \<^verbatim>\<open>set_mode\<close> command fails,
  \<^verbatim>\<open>setRotationSpeedImpl\<close> stops there: the callback is called once, with the error of the
  mode switch, and \<^verbatim>\<open>set_level_favorite\<close> is never sent.
\<close>

theorem setRotationSpeedImpl_mode_switch_fails:
  assumes "property (status acc) MODE \<noteq> JStr ''favorite''"
    and "cl t ''set_mode'' [JStr ''favorite''] = Inl e"
  shows "setRotationSpeedImpl cl acc speed t =
         t @ [Send ''set_mode'' [JStr ''favorite''], Callback (CbErr e)] \<and>
         sent (setRotationSpeedImpl cl acc speed t) = sent t @ [(''set_mode'', [JStr ''favorite''])] \<and>
         callbacks (setRotationSpeedImpl cl acc speed t) = callbacks t @ [CbErr e]"
  using assms
  by (simp add: setRotationSpeedImpl_def setMode_def send_def Let_def sent_append callbacks_append)

text \<open>The accessory as constructed (mode \<^verbatim>\<open>auto\<close>), on a transport that is down.\<close>

theorem setRotationSpeedImpl_mode_switch_fails_witness:
  "property (status accessory_default) MODE \<noteq> JStr ''favorite'' \<and>
   client_down [] ''set_mode'' [JStr ''favorite''] = Inl ''timeout'' \<and>
   setRotationSpeedImpl client_down accessory_default 50 [] =
     [Send ''set_mode'' [JStr ''favorite''], Callback (CbErr ''timeout'')]"
proof -
  have m: "property (status accessory_default) MODE \<noteq> JStr ''favorite''"
    by (simp add: accessory_default_def property_def DEFAULT_VALUE_def PropertyKeys_defs)
  have d: "client_down [] ''set_mode'' [JStr ''favorite''] = Inl ''timeout''"
    by (simp add: client_down_def)
  from setRotationSpeedImpl_mode_switch_fails [of accessory_default client_down "[]"
      "''timeout''" 50] m d
  show ?thesis
    by simp
qed

text \<open>
  C9. When the requested power state equals the power state of the current snapshot,
  \<^verbatim>\<open>setActiveState\<close> calls the callback without an error and sends nothing to the
  transport.
\<close>

theorem setActiveState_same_power:
  assumes "JStr (if Active_ACTIVE = state then ''on'' else ''off'') = property (status acc) POWER"
  shows "setActiveState cl acc state t = t @ [Callback CbNoArg] \<and>
         sent (setActiveState cl acc state t) = sent t \<and>
         callbacks (setActiveState cl acc state t) = callbacks t @ [CbNoArg]"
  using assms by (simp add: setActiveState_def Let_def sent_append callbacks_append)

text \<open>Switching off an accessory that is off, with a transport that would fail.\<close>

theorem setActiveState_same_power_witness:
  "JStr (if Active_ACTIVE = JNum 0 then ''on'' else ''off'') =
     property (status accessory_default) POWER \<and>
   setActiveState client_down accessory_default (JNum 0) [] = [Callback CbNoArg]"
proof -
  have p: "JStr (if Active_ACTIVE = JNum 0 then ''on'' else ''off'') =
     property (status accessory_default) POWER"
    by (simp add: Active_ACTIVE_def accessory_default_def property_def DEFAULT_VALUE_def
        PropertyKeys_defs)
  from setActiveState_same_power [of "JNum 0" accessory_default client_down "[]"] p
  show ?thesis
    by simp
qed

end
